theory Spec2Isabelle
  imports Complex_Main "HOL-Library.Word"
begin

section \<open>The audio player of components/AudioPlayer.tsx\<close>

text \<open>
  The component keeps five React state variables and seven refs, reads the clock of its
  Web Audio context and drives a progress readout from animation-frame callbacks.  The
  embedding keeps the names of the source.  Times are JavaScript numbers in the source;
  they are idealised as \<^typ>\<open>real\<close> here, so rounding of the floating-point arithmetic is
  not part of the model.
\<close>

subsection \<open>Platform objects\<close>

datatype audio_context_state = Suspended | Running | Closed

record audio_context =
  ctx_currentTime :: real
  ctx_state :: audio_context_state
  ctx_sampleRate :: real

record audio_buffer =
  buf_samples :: "real list"
  buf_sampleRate :: real

text \<open>\<open>AudioBuffer.duration\<close>: the number of frames over the sample rate.\<close>

definition buffer_duration :: "audio_buffer \<Rightarrow> real" where
  "buffer_duration b = real (length (buf_samples b)) / buf_sampleRate b"

datatype gain_node = GainNode

record source_node =
  node_buffer :: audio_buffer
  node_output :: gain_node
  node_when :: real
  node_offset :: real

datatype js_error = TypeError | DecodeError | EngineUnavailable

subsection \<open>Component state\<close>

text \<open>
  \<open>updateProgress\<close> is built by \<open>useCallback\<close> with the dependencies
  \<open>[duration, isPlaying, onEnded, stopAudio]\<close>: a callback reads the values of the
  render that created it, not the live state.  A callback is therefore the record of
  the three values it captured (\<open>stopAudio\<close> never changes); the completion callback
  passed by the parent is named by a number, its identity.
\<close>

record poll_closure =
  cap_duration :: real
  cap_isPlaying :: bool
  cap_onEnded :: nat

record player =
  isPlaying :: bool
  progress :: real
  duration :: real
  currentTime :: real
  isReady :: bool
  audioContextRef :: "audio_context option"
  sourceNodeRef :: "source_node option"
  audioBufferRef :: "audio_buffer option"
  startTimeRef :: real
  pauseTimeRef :: real
  animationFrameRef :: nat
  gainNodeRef :: "gain_node option"
  onEnded :: nat
  rendered :: poll_closure
  frameCallbacks :: "(nat \<times> poll_closure) list"
  nextHandle :: nat
  endedCalls :: "nat list"
  console :: "js_error list"

text \<open>
  Beside the state and the refs of the source, a \<^typ>\<open>player\<close> holds what the component
  acts on: the \<open>onEnded\<close> prop, the \<open>updateProgress\<close> callback of the latest render,
  the browser's list of pending animation-frame callbacks with the next handle it
  gives out, the log of completion callbacks invoked so far, and the error console.
\<close>

definition mount :: "nat \<Rightarrow> player" where
  "mount f =
     \<lparr>isPlaying = False, progress = 0, duration = 0, currentTime = 0, isReady = False,
      audioContextRef = None, sourceNodeRef = None, audioBufferRef = None,
      startTimeRef = 0, pauseTimeRef = 0, animationFrameRef = 0, gainNodeRef = None,
      onEnded = f,
      rendered = \<lparr>cap_duration = 0, cap_isPlaying = False, cap_onEnded = f\<rparr>,
      frameCallbacks = [], nextHandle = 1, endedCalls = [], console = []\<rparr>"

subsection \<open>Animation frames\<close>

definition requestAnimationFrame :: "poll_closure \<Rightarrow> player \<Rightarrow> nat \<times> player" where
  "requestAnimationFrame c w =
     (nextHandle w,
      w\<lparr>frameCallbacks := frameCallbacks w @ [(nextHandle w, c)],
        nextHandle := Suc (nextHandle w)\<rparr>)"

definition cancelAnimationFrame :: "nat \<Rightarrow> player \<Rightarrow> player" where
  "cancelAnimationFrame h w =
     w\<lparr>frameCallbacks := filter (\<lambda>p. fst p \<noteq> h) (frameCallbacks w)\<rparr>"

subsection \<open>The operations of the component\<close>

text \<open>
  \<open>stopAudio\<close> (lines 58-68): stop and disconnect the active node inside a
  \<open>try\<close> whose \<open>catch\<close> is empty, then drop the reference.
\<close>

definition stopAudio :: "player \<Rightarrow> player" where
  "stopAudio w =
     (case sourceNodeRef w of
        None \<Rightarrow> w
      | Some n \<Rightarrow> w\<lparr>sourceNodeRef := None\<rparr>)"

text \<open>
  \<open>updateProgress\<close> (lines 70-88), run as the callback \<open>c\<close>.  In the branch that
  divides by the captured duration the source would produce an infinity or a NaN for
  a zero duration; \<open>session_inv\<close> below shows that a callback that captured
  \<open>isPlaying\<close> captured a positive duration.
\<close>

definition updateProgress :: "poll_closure \<Rightarrow> player \<Rightarrow> player" where
  "updateProgress c w =
     (case audioContextRef w of
        None \<Rightarrow> w
      | Some ctx \<Rightarrow>
          if \<not> cap_isPlaying c then w
          else
            let elapsed = ctx_currentTime ctx - startTimeRef w + pauseTimeRef w in
            if elapsed \<ge> cap_duration c then
              (stopAudio
                 (w\<lparr>isPlaying := False, progress := 100, currentTime := cap_duration c,
                    pauseTimeRef := 0\<rparr>))
               \<lparr>endedCalls := endedCalls w @ [cap_onEnded c]\<rparr>
            else
              (case requestAnimationFrame c
                      (w\<lparr>currentTime := elapsed,
                         progress := elapsed / cap_duration c * 100\<rparr>) of
                 (h, w') \<Rightarrow> w'\<lparr>animationFrameRef := h\<rparr>))"

text \<open>
  \<open>togglePlay\<close> (lines 98-129).  A suspended context is resumed first.  The only
  statement that can throw is \<open>source.connect(gainNodeRef.current!)\<close>, a
  \<open>TypeError\<close> when the gain node is missing.
\<close>

definition togglePlay :: "player \<Rightarrow> js_error + player" where
  "togglePlay w =
     (case (audioContextRef w, audioBufferRef w) of
        (Some ctx0, Some buf) \<Rightarrow>
          let ctx = (if ctx_state ctx0 = Suspended then ctx0\<lparr>ctx_state := Running\<rparr> else ctx0);
              w1 = w\<lparr>audioContextRef := Some ctx\<rparr>
          in
            if isPlaying w then
              Inr ((stopAudio w1)
                     \<lparr>pauseTimeRef := pauseTimeRef w1 + (ctx_currentTime ctx - startTimeRef w1),
                      isPlaying := False\<rparr>)
            else
              (case gainNodeRef w1 of
                 None \<Rightarrow> Inl TypeError
               | Some g \<Rightarrow>
                   let w2 = (if currentTime w \<ge> duration w
                             then w1\<lparr>pauseTimeRef := 0, currentTime := 0, progress := 0\<rparr>
                             else w1)
                   in Inr (w2\<lparr>startTimeRef := ctx_currentTime ctx,
                               sourceNodeRef :=
                                 Some \<lparr>node_buffer = buf, node_output = g, node_when = 0,
                                       node_offset = pauseTimeRef w2\<rparr>,
                               isPlaying := True\<rparr>))
      | _ \<Rightarrow> Inr w)"

text \<open>\<open>handleRestart\<close> (lines 131-137).\<close>

definition handleRestart :: "player \<Rightarrow> player" where
  "handleRestart w =
     (stopAudio w)\<lparr>isPlaying := False, pauseTimeRef := 0, currentTime := 0, progress := 0\<rparr>"

text \<open>
  The effect of lines 27-56, for one payload.  \<open>decodeAudioData\<close> lives in
  \<open>utils/audioUtils\<close>; the component only awaits its result, so the decoder is a
  parameter \<open>dec\<close> here, as is the constructor \<open>newContext\<close> of the audio context,
  called with the sample rate asked for.  An absent or empty payload is falsy and
  returns at once.  Everything thrown inside the \<open>try\<close> ends in
  \<open>console.error\<close>.
\<close>

definition initAudio ::
  "(string \<Rightarrow> audio_context \<Rightarrow> js_error + audio_buffer) \<Rightarrow>
   (real \<Rightarrow> js_error + audio_context) \<Rightarrow> string option \<Rightarrow> player \<Rightarrow> player" where
  "initAudio dec newContext base64Audio w =
     (case base64Audio of
        None \<Rightarrow> w
      | Some p \<Rightarrow>
          if p = [] then w
          else
            (case newContext 24000 of
               Inl e \<Rightarrow> w\<lparr>console := console w @ [e]\<rparr>
             | Inr ctx \<Rightarrow>
                 let w1 = w\<lparr>audioContextRef := Some ctx, gainNodeRef := Some GainNode\<rparr> in
                 (case dec p ctx of
                    Inl e \<Rightarrow> w1\<lparr>console := console w1 @ [e]\<rparr>
                  | Inr buffer \<Rightarrow>
                      w1\<lparr>audioBufferRef := Some buffer, duration := buffer_duration buffer,
                         isReady := True\<rparr>)))"

text \<open>What the component returns (lines 145-194): the loading box until \<open>isReady\<close>.\<close>

datatype view = LoadingIndicator | TransportControls real real real bool

definition AudioPlayer_view :: "player \<Rightarrow> view" where
  "AudioPlayer_view w =
     (if \<not> isReady w then LoadingIndicator
      else TransportControls (progress w) (currentTime w) (duration w) (isPlaying w))"

subsection \<open>Rendering and the events of a session\<close>

text \<open>
  The callback a render of the current state builds, and the render itself: when one of
  the dependencies differs from what the latest callback captured, \<open>useCallback\<close>
  returns a new callback and the effect of lines 90-96, which depends on
  \<open>[isPlaying, updateProgress]\<close>, runs again.  The effect returns no cleanup: it
  requests a frame for the new callback while playing and cancels the frame whose handle
  is in \<open>animationFrameRef\<close> otherwise.
\<close>

definition closure_of :: "player \<Rightarrow> poll_closure" where
  "closure_of w =
     \<lparr>cap_duration = duration w, cap_isPlaying = isPlaying w, cap_onEnded = onEnded w\<rparr>"

definition render :: "player \<Rightarrow> player" where
  "render w =
     (if closure_of w = rendered w then w
      else
        let w1 = w\<lparr>rendered := closure_of w\<rparr> in
        if isPlaying w1 then
          (case requestAnimationFrame (closure_of w) w1 of
             (h, w2) \<Rightarrow> w2\<lparr>animationFrameRef := h\<rparr>)
        else cancelAnimationFrame (animationFrameRef w1) w1)"

text \<open>The audio engine moves its clock; the component only reads it.\<close>

definition advance :: "real \<Rightarrow> player \<Rightarrow> player" where
  "advance d w =
     w\<lparr>audioContextRef :=
         map_option (\<lambda>ctx. ctx\<lparr>ctx_currentTime := ctx_currentTime ctx + d\<rparr>)
           (audioContextRef w)\<rparr>"

text \<open>
  One animation frame runs the callbacks that were pending when it began, in the order
  of their requests; the state updates they make are applied in one render afterwards.
\<close>

fun run_callbacks :: "(nat \<times> poll_closure) list \<Rightarrow> player \<Rightarrow> player" where
  "run_callbacks [] w = w"
| "run_callbacks (p # ps) w = run_callbacks ps (updateProgress (snd p) w)"

definition animation_frame :: "player \<Rightarrow> player" where
  "animation_frame w = render (run_callbacks (frameCallbacks w) (w\<lparr>frameCallbacks := []\<rparr>))"

datatype event =
    ClickToggle
  | ClickRestart
  | AnimationFrame
  | ClockAdvance real
  | ParentRender nat

fun step :: "event \<Rightarrow> player \<Rightarrow> js_error + player" where
  "step ClickToggle w =
     (case togglePlay w of Inl e \<Rightarrow> Inl e | Inr w' \<Rightarrow> Inr (render w'))"
| "step ClickRestart w = Inr (render (handleRestart w))"
| "step AnimationFrame w = Inr (animation_frame w)"
| "step (ClockAdvance d) w = Inr (advance d w)"
| "step (ParentRender f) w = Inr (render (w\<lparr>onEnded := f\<rparr>))"

fun run :: "event list \<Rightarrow> player \<Rightarrow> js_error + player" where
  "run [] w = Inr w"
| "run (e # es) w = (case step e w of Inl err \<Rightarrow> Inl err | Inr w' \<Rightarrow> run es w')"

text \<open>
  The progress poll of the session: the callback of the current state, run once.
\<close>

definition poll :: "player \<Rightarrow> player" where
  "poll w = updateProgress (closure_of w) w"


subsection \<open>Quantities the properties speak of\<close>

definition clock :: "player \<Rightarrow> real" where
  "clock w = (case audioContextRef w of None \<Rightarrow> 0 | Some ctx \<Rightarrow> ctx_currentTime ctx)"

definition elapsed_time :: "player \<Rightarrow> real" where
  "elapsed_time w = clock w - startTimeRef w + pauseTimeRef w"

text \<open>The percentage the progress bar should show for a position and a duration.\<close>

definition ui_progress :: "real \<Rightarrow> real \<Rightarrow> real" where
  "ui_progress t d = (if d = 0 then 0 else t / d * 100)"

text \<open>
  The values of \<open>currentTime\<close> that successive polls report when the audio clock
  advances by the given amounts between them.
\<close>

fun poll_trajectory :: "real list \<Rightarrow> player \<Rightarrow> real list" where
  "poll_trajectory [] w = []"
| "poll_trajectory (d # ds) w =
     (let w' = poll (advance d w) in currentTime w' # poll_trajectory ds w')"

text \<open>
  A callback that captured \<open>isPlaying\<close> was built after decoding finished, and so
  captured the duration of the buffer.
\<close>

definition closure_ok :: "player \<Rightarrow> poll_closure \<Rightarrow> bool" where
  "closure_ok w c = (cap_isPlaying c \<longrightarrow> isReady w \<and> cap_duration c = duration w)"

definition session_inv :: "player \<Rightarrow> bool" where
  "session_inv w =
     (0 \<le> currentTime w \<and> currentTime w \<le> duration w \<and>
      (isPlaying w \<longrightarrow> isReady w \<and> currentTime w < duration w) \<and>
      progress w = ui_progress (currentTime w) (duration w) \<and>
      (isReady w \<longrightarrow>
         0 < duration w \<and> audioContextRef w \<noteq> None \<and> gainNodeRef w \<noteq> None \<and>
         map_option buffer_duration (audioBufferRef w) = Some (duration w)) \<and>
      (\<not> isReady w \<longrightarrow> duration w = 0 \<and> audioBufferRef w = None) \<and>
      0 \<le> pauseTimeRef w \<and> startTimeRef w \<le> clock w \<and>
      closure_ok w (rendered w) \<and>
      list_all (\<lambda>p. closure_ok w (snd p)) (frameCallbacks w))"

text \<open>
  The invariant as the data model states it: the position lies within the buffer, only a
  ready session plays, and the progress bar shows the position as a percentage.
\<close>

definition observable_inv :: "player \<Rightarrow> bool" where
  "observable_inv w =
     (0 \<le> currentTime w \<and> currentTime w \<le> duration w \<and>
      (isPlaying w \<longrightarrow> isReady w) \<and>
      progress w = ui_progress (currentTime w) (duration w))"

text \<open>
  A session begins when the component is mounted with a payload: the first render, the
  effect that decodes, and the render that follows the state updates of the effect.
\<close>

definition session_start ::
  "(string \<Rightarrow> audio_context \<Rightarrow> js_error + audio_buffer) \<Rightarrow>
   (real \<Rightarrow> js_error + audio_context) \<Rightarrow> string option \<Rightarrow> nat \<Rightarrow> player" where
  "session_start dec newContext base64Audio f =
     render (initAudio dec newContext base64Audio (mount f))"

text \<open>
  What a caller can observe of the transport: whether it plays, the position, the
  progress, the accumulated offset, and the offset at which the active node, if there
  is one, was started.
\<close>

definition observable :: "player \<Rightarrow> bool \<times> real \<times> real \<times> real \<times> real option" where
  "observable w =
     (isPlaying w, currentTime w, progress w, pauseTimeRef w,
      map_option node_offset (sourceNodeRef w))"

text \<open>
  A session whose payload never decoded: not ready, nothing playing or pending, every
  counter at its initial value, no completion callback invoked.
\<close>

definition dormant :: "player \<Rightarrow> bool" where
  "dormant w =
     (\<not> isReady w \<and> audioBufferRef w = None \<and> \<not> isPlaying w \<and> sourceNodeRef w = None \<and>
      currentTime w = 0 \<and> progress w = 0 \<and> duration w = 0 \<and> pauseTimeRef w = 0 \<and>
      frameCallbacks w = [] \<and> \<not> cap_isPlaying (rendered w) \<and> endedCalls w = [])"

text \<open>The audio clock never runs backwards.\<close>

fun valid_event :: "event \<Rightarrow> bool" where
  "valid_event (ClockAdvance d) = (0 \<le> d)"
| "valid_event _ = True"

subsection \<open>A session on a ten-second buffer\<close>

text \<open>
  The session of the end-to-end scenarios: a buffer of 240000 frames at 24000 Hz, a
  context that starts suspended with its clock at 0, and the completion callback 0.
\<close>

definition demo_buffer :: audio_buffer where
  "demo_buffer = \<lparr>buf_samples = replicate 240000 0, buf_sampleRate = 24000\<rparr>"

definition demo_context :: "real \<Rightarrow> js_error + audio_context" where
  "demo_context rate = Inr \<lparr>ctx_currentTime = 0, ctx_state = Suspended, ctx_sampleRate = rate\<rparr>"

definition demo_session :: player where
  "demo_session = session_start (\<lambda>p ctx. Inr demo_buffer) demo_context (Some ''AAAA'') 0"

subsection \<open>The decode pipeline\<close>

text \<open>
  Modelled from the spec: \<open>decodeAudioData\<close> of \<open>utils/audioUtils\<close>, which the
  component imports, is not among the sources.  Section 4.1 gives its steps: decode the
  base64 text to bytes, read the bytes as little-endian signed 16-bit samples, divide
  each by 32768, and fill a one-channel buffer at the sample rate of the context; a
  malformed or empty payload and an odd number of bytes are a decode failure.
\<close>

definition b64_value :: "char \<Rightarrow> nat option" where
  "b64_value c =
     (let k = (of_char c :: nat) in
      if 65 \<le> k \<and> k \<le> 90 then Some (k - 65)
      else if 97 \<le> k \<and> k \<le> 122 then Some (k - 71)
      else if 48 \<le> k \<and> k \<le> 57 then Some (k + 4)
      else if k = 43 then Some 62
      else if k = 47 then Some 63
      else None)"

text \<open>
  Modelled from the spec: step 1, the base64 routine of the platform, as the padded
  encoding of RFC 4648 over groups of four characters.
\<close>

fun atob :: "string \<Rightarrow> 8 word list option" where
  "atob [] = Some []"
| "atob (a # b # c # d # rest) =
     (case (b64_value a, b64_value b) of
        (Some x, Some y) \<Rightarrow>
          if rest = [] \<and> c = CHR ''='' \<and> d = CHR ''='' then Some [of_nat (x * 4 + y div 16)]
          else
            (case b64_value c of
               None \<Rightarrow> None
             | Some z \<Rightarrow>
                 if rest = [] \<and> d = CHR ''=''
                 then Some [of_nat (x * 4 + y div 16), of_nat (y mod 16 * 16 + z div 4)]
                 else
                   (case (b64_value d, atob rest) of
                      (Some u, Some bs) \<Rightarrow>
                        Some (of_nat (x * 4 + y div 16) # of_nat (y mod 16 * 16 + z div 4) #
                              of_nat (z mod 4 * 64 + u) # bs)
                    | _ \<Rightarrow> None))
      | _ \<Rightarrow> None)"
| "atob _ = None"

text \<open>Modelled from the spec: steps 2 and 3, one sample from its low and high byte.\<close>

definition pcm16_sample :: "8 word \<Rightarrow> 8 word \<Rightarrow> real" where
  "pcm16_sample lo hi = real_of_int (sint (word_cat hi lo :: 16 word)) / 32768"

text \<open>Modelled from the spec: step 4, the samples of all byte pairs in order.\<close>

fun pcm16_frames :: "8 word list \<Rightarrow> real list" where
  "pcm16_frames (lo # hi # rest) = pcm16_sample lo hi # pcm16_frames rest"
| "pcm16_frames _ = []"

text \<open>Modelled from the spec: the contract and steps 1 to 5 of section 4.1.\<close>

definition decodeAudioData :: "string \<Rightarrow> audio_context \<Rightarrow> js_error + audio_buffer" where
  "decodeAudioData payload ctx =
     (case atob payload of
        None \<Rightarrow> Inl DecodeError
      | Some bytes \<Rightarrow>
          if bytes = [] \<or> odd (length bytes) then Inl DecodeError
          else Inr \<lparr>buf_samples = pcm16_frames bytes, buf_sampleRate = ctx_sampleRate ctx\<rparr>)"


section \<open>Basic facts about the operations\<close>

lemma stopAudio_eq: "stopAudio w = w\<lparr>sourceNodeRef := None\<rparr>"
  by (cases "sourceNodeRef w") (simp_all add: stopAudio_def)

lemma advance_fields:
  "isPlaying (advance d w) = isPlaying w" "duration (advance d w) = duration w"
  "currentTime (advance d w) = currentTime w" "progress (advance d w) = progress w"
  "pauseTimeRef (advance d w) = pauseTimeRef w" "startTimeRef (advance d w) = startTimeRef w"
  "audioBufferRef (advance d w) = audioBufferRef w" "gainNodeRef (advance d w) = gainNodeRef w"
  "sourceNodeRef (advance d w) = sourceNodeRef w" "endedCalls (advance d w) = endedCalls w"
  "onEnded (advance d w) = onEnded w" "isReady (advance d w) = isReady w"
  "(audioContextRef (advance d w) = None) = (audioContextRef w = None)"
  by (simp_all add: advance_def)

lemma elapsed_time_advance:
  "audioContextRef w \<noteq> None \<Longrightarrow> elapsed_time (advance d w) = elapsed_time w + d"
  by (auto simp: elapsed_time_def clock_def advance_def)

text \<open>The pause branch of \<open>togglePlay\<close>.\<close>

lemma togglePlay_pause:
  assumes "audioContextRef w = Some ctx" "audioBufferRef w = Some buf" "isPlaying w"
  shows "\<exists>w1. togglePlay w = Inr w1 \<and> \<not> isPlaying w1 \<and> sourceNodeRef w1 = None \<and>
           pauseTimeRef w1 = pauseTimeRef w + (clock w - startTimeRef w) \<and>
           startTimeRef w1 = startTimeRef w \<and>
           currentTime w1 = currentTime w \<and> progress w1 = progress w \<and>
           duration w1 = duration w \<and> clock w1 = clock w \<and>
           audioContextRef w1 \<noteq> None \<and> audioBufferRef w1 = audioBufferRef w \<and>
           gainNodeRef w1 = gainNodeRef w \<and> endedCalls w1 = endedCalls w \<and>
           onEnded w1 = onEnded w"
  using assms by (simp add: togglePlay_def stopAudio_eq clock_def Let_def)

text \<open>The play branch, before the end of the buffer and at or after it.\<close>

lemma togglePlay_play:
  assumes "audioContextRef w = Some ctx" "audioBufferRef w = Some buf" "gainNodeRef w = Some g"
      and "\<not> isPlaying w" "currentTime w < duration w"
  shows "\<exists>w2. togglePlay w = Inr w2 \<and> isPlaying w2 \<and>
           map_option node_offset (sourceNodeRef w2) = Some (pauseTimeRef w) \<and>
           map_option node_buffer (sourceNodeRef w2) = Some buf \<and>
           startTimeRef w2 = clock w \<and> pauseTimeRef w2 = pauseTimeRef w \<and>
           currentTime w2 = currentTime w \<and> progress w2 = progress w \<and>
           duration w2 = duration w \<and> clock w2 = clock w \<and>
           audioContextRef w2 \<noteq> None \<and> endedCalls w2 = endedCalls w \<and>
           onEnded w2 = onEnded w"
  using assms by (simp add: togglePlay_def clock_def Let_def)

lemma togglePlay_replay:
  assumes "audioContextRef w = Some ctx" "audioBufferRef w = Some buf" "gainNodeRef w = Some g"
      and "\<not> isPlaying w" "duration w \<le> currentTime w"
  shows "\<exists>w2. togglePlay w = Inr w2 \<and> isPlaying w2 \<and>
           map_option node_offset (sourceNodeRef w2) = Some 0 \<and>
           map_option node_buffer (sourceNodeRef w2) = Some buf \<and>
           startTimeRef w2 = clock w \<and> pauseTimeRef w2 = 0 \<and>
           currentTime w2 = 0 \<and> progress w2 = 0 \<and>
           duration w2 = duration w \<and> clock w2 = clock w \<and>
           audioContextRef w2 \<noteq> None \<and> endedCalls w2 = endedCalls w \<and>
           onEnded w2 = onEnded w"
  using assms by (simp add: togglePlay_def clock_def Let_def)

text \<open>The two branches of the poll, and the guard.\<close>

lemma poll_playing:
  assumes "audioContextRef w \<noteq> None" "isPlaying w" "elapsed_time w < duration w"
  shows "currentTime (poll w) = elapsed_time w \<and>
         progress (poll w) = elapsed_time w / duration w * 100 \<and>
         isPlaying (poll w) \<and> endedCalls (poll w) = endedCalls w \<and>
         pauseTimeRef (poll w) = pauseTimeRef w \<and> startTimeRef (poll w) = startTimeRef w \<and>
         sourceNodeRef (poll w) = sourceNodeRef w \<and> duration (poll w) = duration w \<and>
         elapsed_time (poll w) = elapsed_time w \<and> audioContextRef (poll w) \<noteq> None"
  using assms
  by (auto simp: poll_def updateProgress_def closure_of_def elapsed_time_def clock_def
      requestAnimationFrame_def Let_def)

lemma poll_at_end:
  assumes "audioContextRef w \<noteq> None" "isPlaying w" "duration w \<le> elapsed_time w"
  shows "currentTime (poll w) = duration w \<and> progress (poll w) = 100 \<and>
         pauseTimeRef (poll w) = 0 \<and> sourceNodeRef (poll w) = None \<and>
         \<not> isPlaying (poll w) \<and> endedCalls (poll w) = endedCalls w @ [onEnded w] \<and>
         duration (poll w) = duration w"
  using assms
  by (auto simp: poll_def updateProgress_def closure_of_def elapsed_time_def clock_def
      stopAudio_eq Let_def)

lemma poll_not_playing: "\<not> isPlaying w \<Longrightarrow> poll w = w"
  by (cases "audioContextRef w") (simp_all add: poll_def updateProgress_def closure_of_def)

text \<open>Neither control invokes the completion callback.\<close>

lemma togglePlay_endedCalls: "togglePlay w = Inr w' \<Longrightarrow> endedCalls w' = endedCalls w"
  by (cases "audioContextRef w"; cases "audioBufferRef w"; cases "gainNodeRef w")
     (auto simp: togglePlay_def stopAudio_eq Let_def split: if_splits)

lemma handleRestart_endedCalls: "endedCalls (handleRestart w) = endedCalls w"
  by (simp add: handleRestart_def stopAudio_eq)

text \<open>Evaluation of the ten-second session.\<close>

lemma demo_duration: "buffer_duration demo_buffer = 10"
  by (simp add: buffer_duration_def demo_buffer_def)

lemmas eval_defs = demo_session_def session_start_def initAudio_def mount_def demo_context_def
  render_def closure_of_def cancelAnimationFrame_def requestAnimationFrame_def demo_duration
  togglePlay_def stopAudio_eq handleRestart_def updateProgress_def advance_def
  animation_frame_def poll_def clock_def elapsed_time_def Let_def

section \<open>The completion callback\<close>

text \<open>
  A poll that observes the end does what section 4.2 lists (\<open>poll_at_end\<close>), and
  neither \<open>togglePlay\<close> nor \<open>handleRestart\<close> invokes the callback
  (\<open>togglePlay_endedCalls\<close>, \<open>handleRestart_endedCalls\<close>).  With one callback
  pending, the natural end invokes it once, and later frames invoke nothing:
\<close>

lemma single_poll_loop_completes_once:
  "map_sum id endedCalls
     (run [ClickToggle, ClockAdvance 4, AnimationFrame, ClockAdvance 6, AnimationFrame,
           ClockAdvance 1, AnimationFrame] demo_session) = Inr [0]"
  by (simp add: eval_defs)

text \<open>
  C1.  The count of invocations does not survive a render of the parent.  A new
  \<open>onEnded\<close> function gives \<open>updateProgress\<close> a new identity, the effect of lines
  90-96 runs again and requests a frame for the new callback, and the frame requested
  by the old callback is still pending, since the effect has no cleanup and each
  callback reschedules itself.  Every one of these callbacks captured
  \<open>isPlaying = true\<close>; at the natural end each passes the guard of line 71, finds
  the elapsed time at or beyond the duration and invokes its completion callback.  On
  the ten-second session with two renders of the parent during playback, the frame at
  10 seconds invokes the callback three times.
\<close>

theorem parent_render_repeats_completion:
  "map_sum id endedCalls
     (run [ClickToggle, ClockAdvance 1, AnimationFrame, ParentRender 1, ClockAdvance 1,
           AnimationFrame, ParentRender 2, ClockAdvance 8, AnimationFrame] demo_session) =
     Inr [0, 1, 2]"
  by (simp add: eval_defs)

section \<open>The session invariant\<close>

text \<open>
  \<open>session_inv\<close> strengthens the invariant of the data model by what the operations
  rely on: a ready session has a buffer of positive duration, a context and a gain node;
  a playing session has not reached the end of its buffer; the offset is not negative;
  the segment began no later than the clock reads now; every
  callback, the pending ones included, agrees with the session on the duration.  It
  holds when the component is mounted and every event keeps it.
\<close>

lemma session_inv_observable: "session_inv w \<Longrightarrow> observable_inv w"
  by (simp add: session_inv_def observable_inv_def)

lemma session_inv_ready:
  assumes "session_inv w" "isReady w"
  shows "\<exists>ctx buf g. audioContextRef w = Some ctx \<and> audioBufferRef w = Some buf \<and>
           gainNodeRef w = Some g \<and> duration w = buffer_duration buf \<and> 0 < duration w"
  using assms by (auto simp: session_inv_def)

lemma session_inv_playing:
  "session_inv w \<Longrightarrow> isPlaying w \<Longrightarrow> isReady w \<and> currentTime w < duration w"
  by (simp add: session_inv_def)

lemma session_inv_mount: "session_inv (mount f)"
  by (simp add: session_inv_def mount_def ui_progress_def clock_def closure_ok_def)

lemma session_inv_advance: "session_inv w \<Longrightarrow> 0 \<le> d \<Longrightarrow> session_inv (advance d w)"
  by (cases "audioContextRef w") (auto simp: session_inv_def advance_def clock_def closure_ok_def)

lemma session_inv_updateProgress:
  "session_inv w \<Longrightarrow> closure_ok w c \<Longrightarrow> session_inv (updateProgress c w)"
  by (cases "audioContextRef w")
     (auto simp: session_inv_def updateProgress_def stopAudio_eq clock_def closure_ok_def
      ui_progress_def requestAnimationFrame_def Let_def)

lemma session_inv_togglePlay:
  "session_inv w \<Longrightarrow> \<exists>w'. togglePlay w = Inr w' \<and> session_inv w'"
  by (cases "audioContextRef w"; cases "audioBufferRef w"; cases "gainNodeRef w")
     (auto simp: session_inv_def togglePlay_def stopAudio_eq clock_def closure_ok_def
      ui_progress_def Let_def)

lemma session_inv_handleRestart: "session_inv w \<Longrightarrow> session_inv (handleRestart w)"
  by (simp add: session_inv_def handleRestart_def stopAudio_eq clock_def closure_ok_def
      ui_progress_def)

lemma session_inv_render: "session_inv w \<Longrightarrow> session_inv (render w)"
  by (auto simp: session_inv_def render_def closure_of_def clock_def closure_ok_def
      requestAnimationFrame_def cancelAnimationFrame_def Let_def list_all_iff)

lemma closure_ok_updateProgress: "closure_ok (updateProgress c w) c' = closure_ok w c'"
  by (cases "audioContextRef w")
     (simp_all add: updateProgress_def closure_ok_def stopAudio_eq requestAnimationFrame_def
      Let_def)

lemma session_inv_closure_of: "session_inv w \<Longrightarrow> closure_ok w (closure_of w)"
  by (simp add: session_inv_def closure_ok_def closure_of_def)

lemma session_inv_poll: "session_inv w \<Longrightarrow> session_inv (poll w)"
  unfolding poll_def by (rule session_inv_updateProgress) (simp_all add: session_inv_closure_of)

lemma session_inv_run_callbacks:
  "session_inv w \<Longrightarrow> list_all (\<lambda>p. closure_ok w (snd p)) ps \<Longrightarrow>
   session_inv (run_callbacks ps w)"
proof (induction ps arbitrary: w)
  case Nil
  then show ?case by simp
next
  case (Cons p ps)
  from Cons.prems have ok: "closure_ok w (snd p)"
    and rest: "list_all (\<lambda>q. closure_ok w (snd q)) ps"
    by simp_all
  have "session_inv (updateProgress (snd p) w)"
    using Cons.prems(1) ok by (rule session_inv_updateProgress)
  moreover have "list_all (\<lambda>q. closure_ok (updateProgress (snd p) w) (snd q)) ps"
    using rest by (simp add: closure_ok_updateProgress)
  ultimately show ?case using Cons.IH by simp
qed

lemma session_inv_animation_frame: "session_inv w \<Longrightarrow> session_inv (animation_frame w)"
proof -
  assume inv: "session_inv w"
  let ?w0 = "w\<lparr>frameCallbacks := []\<rparr>"
  have "session_inv ?w0" using inv by (simp add: session_inv_def clock_def closure_ok_def)
  moreover have "list_all (\<lambda>p. closure_ok ?w0 (snd p)) (frameCallbacks w)"
    using inv by (simp add: session_inv_def closure_ok_def)
  ultimately have "session_inv (run_callbacks (frameCallbacks w) ?w0)"
    by (rule session_inv_run_callbacks)
  then show ?thesis unfolding animation_frame_def by (rule session_inv_render)
qed

lemma session_inv_step:
  "session_inv w \<Longrightarrow> valid_event e \<Longrightarrow> \<exists>w'. step e w = Inr w' \<and> session_inv w'"
proof (cases e)
  case ClickToggle
  assume "session_inv w"
  then obtain w' where "togglePlay w = Inr w'" "session_inv w'"
    using session_inv_togglePlay by blast
  then show ?thesis using ClickToggle by (simp add: session_inv_render)
next
  case ClickRestart
  assume "session_inv w"
  then show ?thesis using ClickRestart by (simp add: session_inv_render session_inv_handleRestart)
next
  case AnimationFrame
  assume "session_inv w"
  then show ?thesis using AnimationFrame by (simp add: session_inv_animation_frame)
next
  case (ClockAdvance d)
  assume "session_inv w" "valid_event e"
  then show ?thesis using ClockAdvance by (simp add: session_inv_advance)
next
  case (ParentRender f)
  assume inv: "session_inv w"
  have "session_inv (w\<lparr>onEnded := f\<rparr>)"
    using inv by (simp add: session_inv_def clock_def closure_ok_def)
  then show ?thesis using ParentRender by (simp add: session_inv_render)
qed

lemma session_inv_run:
  "session_inv w \<Longrightarrow> list_all valid_event es \<Longrightarrow> \<exists>w'. run es w = Inr w' \<and> session_inv w'"
proof (induction es arbitrary: w)
  case Nil
  then show ?case by simp
next
  case (Cons e es)
  from Cons.prems obtain w1 where s: "step e w = Inr w1" and i: "session_inv w1"
    using session_inv_step by fastforce
  from Cons.IH [OF i] Cons.prems(2) obtain w' where "run es w1 = Inr w'" "session_inv w'"
    by auto
  then show ?case using s by simp
qed

lemma session_inv_initAudio:
  assumes "\<forall>p ctx b. dec p ctx = Inr b \<longrightarrow> 0 < buffer_duration b"
      and "\<forall>ctx. newContext 24000 = Inr ctx \<longrightarrow> 0 \<le> ctx_currentTime ctx"
  shows "session_inv (initAudio dec newContext payload (mount f))"
proof (cases payload)
  case None
  then show ?thesis by (simp add: initAudio_def session_inv_mount)
next
  case (Some p)
  show ?thesis
  proof (cases "p = []")
    case True
    then show ?thesis using Some by (simp add: initAudio_def session_inv_mount)
  next
    case False
    show ?thesis
    proof (cases "newContext 24000")
      case (Inl e)
      then show ?thesis using Some False session_inv_mount [of f]
        by (simp add: initAudio_def session_inv_def clock_def closure_ok_def)
    next
      case (Inr ctx)
      then have c0: "0 \<le> ctx_currentTime ctx" using assms(2) by simp
      show ?thesis
      proof (cases "dec p ctx")
        case (Inl e)
        then show ?thesis using Some False Inr c0
          by (simp add: initAudio_def session_inv_def mount_def ui_progress_def clock_def
              closure_ok_def)
      next
        case (Inr b)
        then have "0 < buffer_duration b" using assms(1) by blast
        then show ?thesis using Some False \<open>newContext 24000 = Inr ctx\<close> Inr c0
          by (simp add: initAudio_def session_inv_def mount_def ui_progress_def clock_def
              closure_ok_def)
      qed
    qed
  qed
qed

lemma session_inv_session_start:
  assumes "\<forall>p ctx b. dec p ctx = Inr b \<longrightarrow> 0 < buffer_duration b"
      and "\<forall>ctx. newContext 24000 = Inr ctx \<longrightarrow> 0 \<le> ctx_currentTime ctx"
  shows "session_inv (session_start dec newContext payload f)"
  unfolding session_start_def
  using assms by (intro session_inv_render session_inv_initAudio)

text \<open>
  C2.  Start a session with any decoder that yields buffers of positive duration (the
  Web Audio API has no buffer of zero frames) and any context whose clock starts at a
  non-negative reading, and let any events follow, the clock never running backwards.
  The session accepts them all without an error, and in the state reached the position
  lies between 0 and the duration, a playing session is ready, and the progress shown is
  the position as a percentage of the duration, 0 while the duration is 0.  From that
  state play or pause (\<open>togglePlay\<close>), restart, the poll of the session and each
  pending frame callback lead to a state with the same properties.
\<close>

theorem session_invariant_holds:
  assumes "\<forall>p ctx b. dec p ctx = Inr b \<longrightarrow> 0 < buffer_duration b"
      and "\<forall>ctx. newContext 24000 = Inr ctx \<longrightarrow> 0 \<le> ctx_currentTime ctx"
      and "list_all valid_event es"
  shows "\<exists>w. run es (session_start dec newContext payload f) = Inr w \<and>
             observable_inv w \<and>
             (duration w = 0 \<longrightarrow> progress w = 0) \<and>
             (\<exists>w'. togglePlay w = Inr w' \<and> observable_inv w') \<and>
             observable_inv (handleRestart w) \<and>
             observable_inv (poll w) \<and>
             (\<forall>p \<in> set (frameCallbacks w). observable_inv (updateProgress (snd p) w))"
proof -
  have "session_inv (session_start dec newContext payload f)"
    using assms(1,2) by (rule session_inv_session_start)
  then obtain w where r: "run es (session_start dec newContext payload f) = Inr w"
    and inv: "session_inv w"
    using session_inv_run assms(3) by blast
  have obs: "observable_inv w" using inv by (rule session_inv_observable)
  then have zero: "duration w = 0 \<longrightarrow> progress w = 0"
    by (simp add: observable_inv_def ui_progress_def)
  obtain w' where "togglePlay w = Inr w'" "session_inv w'"
    using session_inv_togglePlay [OF inv] by blast
  then have tp: "\<exists>w'. togglePlay w = Inr w' \<and> observable_inv w'"
    using session_inv_observable by blast
  have rs: "observable_inv (handleRestart w)"
    using inv by (intro session_inv_observable session_inv_handleRestart)
  have pl: "observable_inv (poll w)"
    using inv by (intro session_inv_observable session_inv_poll)
  have cb: "\<forall>p \<in> set (frameCallbacks w). observable_inv (updateProgress (snd p) w)"
  proof
    fix p assume "p \<in> set (frameCallbacks w)"
    then have "closure_ok w (snd p)" using inv by (simp add: session_inv_def list_all_iff)
    with inv show "observable_inv (updateProgress (snd p) w)"
      by (intro session_inv_observable session_inv_updateProgress)
  qed
  show ?thesis using r obs zero tp rs pl cb by blast
qed

theorem session_invariant_holds_witness:
  "\<exists>w. run [ClickToggle, ClockAdvance (1 / 2), AnimationFrame, ClickToggle]
          (session_start (\<lambda>p ctx. Inr \<lparr>buf_samples = [0, 0], buf_sampleRate = 2\<rparr>)
             (\<lambda>r. Inr \<lparr>ctx_currentTime = 0, ctx_state = Suspended, ctx_sampleRate = r\<rparr>)
             (Some ''AAAA'') 0) = Inr w \<and>
       observable_inv w \<and> observable_inv (handleRestart w) \<and> observable_inv (poll w)"
proof -
  have "\<exists>w. run [ClickToggle, ClockAdvance (1 / 2), AnimationFrame, ClickToggle]
          (session_start (\<lambda>p ctx. Inr \<lparr>buf_samples = [0, 0], buf_sampleRate = 2\<rparr>)
             (\<lambda>r. Inr \<lparr>ctx_currentTime = 0, ctx_state = Suspended, ctx_sampleRate = r\<rparr>)
             (Some ''AAAA'') 0) = Inr w \<and>
             observable_inv w \<and>
             (duration w = 0 \<longrightarrow> progress w = 0) \<and>
             (\<exists>w'. togglePlay w = Inr w' \<and> observable_inv w') \<and>
             observable_inv (handleRestart w) \<and>
             observable_inv (poll w) \<and>
             (\<forall>p \<in> set (frameCallbacks w). observable_inv (updateProgress (snd p) w))"
    by (rule session_invariant_holds) (simp_all add: buffer_duration_def)
  then show ?thesis by blast
qed

section \<open>Pause and resume\<close>

text \<open>
  The two branches of \<open>togglePlay\<close> taken one after the other, with no frame callback
  run in between: pause adds the length of the segment, clock minus \<open>startTimeRef\<close>,
  to \<open>pauseTimeRef\<close>; however long the pause lasts, the play that follows starts its
  node at that offset and records the clock as \<open>startTimeRef\<close>; a poll of the current
  callback before the end then reports the elapsed time at the pause plus the time since
  the second play.
\<close>

lemma pause_then_play_ready:
  assumes "audioContextRef w = Some ctx" "audioBufferRef w = Some buf" "gainNodeRef w = Some g"
      and "isPlaying w" "currentTime w < duration w"
  shows "\<exists>w1 w2. togglePlay w = Inr w1 \<and> \<not> isPlaying w1 \<and>
           pauseTimeRef w1 = pauseTimeRef w + (clock w - startTimeRef w) \<and>
           togglePlay (advance b w1) = Inr w2 \<and> isPlaying w2 \<and>
           map_option node_offset (sourceNodeRef w2) = Some (pauseTimeRef w1) \<and>
           startTimeRef w2 = clock (advance b w1) \<and>
           elapsed_time (advance d w2) = elapsed_time w + d \<and>
           (elapsed_time w + d < duration w \<longrightarrow>
              currentTime (poll (advance d w2)) = elapsed_time w + d)"
proof -
  from togglePlay_pause [OF assms(1,2,4)] obtain w1 where
    t1: "togglePlay w = Inr w1" and np: "\<not> isPlaying w1" and
    p1: "pauseTimeRef w1 = pauseTimeRef w + (clock w - startTimeRef w)" and
    ct1: "currentTime w1 = currentTime w" and d1: "duration w1 = duration w" and
    c1: "audioContextRef w1 \<noteq> None" and b1: "audioBufferRef w1 = audioBufferRef w" and
    g1: "gainNodeRef w1 = gainNodeRef w"
    by blast
  let ?a = "advance b w1"
  from c1 obtain ctx' where ca: "audioContextRef ?a = Some ctx'"
    using advance_fields(13) [of b w1] by auto
  have "\<exists>w2. togglePlay ?a = Inr w2 \<and> isPlaying w2 \<and>
           map_option node_offset (sourceNodeRef w2) = Some (pauseTimeRef ?a) \<and>
           map_option node_buffer (sourceNodeRef w2) = Some buf \<and>
           startTimeRef w2 = clock ?a \<and> pauseTimeRef w2 = pauseTimeRef ?a \<and>
           currentTime w2 = currentTime ?a \<and> progress w2 = progress ?a \<and>
           duration w2 = duration ?a \<and> clock w2 = clock ?a \<and>
           audioContextRef w2 \<noteq> None \<and> endedCalls w2 = endedCalls ?a \<and>
           onEnded w2 = onEnded ?a"
    using ca b1 g1 assms np ct1 d1 by (intro togglePlay_play) (simp_all add: advance_fields)
  then obtain w2 where
    t2: "togglePlay ?a = Inr w2" and pl: "isPlaying w2" and
    off: "map_option node_offset (sourceNodeRef w2) = Some (pauseTimeRef ?a)" and
    s2: "startTimeRef w2 = clock ?a" and p2: "pauseTimeRef w2 = pauseTimeRef ?a" and
    d2: "duration w2 = duration ?a" and k2: "clock w2 = clock ?a" and
    c2: "audioContextRef w2 \<noteq> None"
    by blast
  have e2: "elapsed_time w2 = elapsed_time w"
    using s2 p2 k2 p1 by (simp add: elapsed_time_def advance_fields)
  have el: "elapsed_time (advance d w2) = elapsed_time w + d"
    using c2 e2 by (simp add: elapsed_time_advance)
  have rep: "elapsed_time w + d < duration w \<longrightarrow>
              currentTime (poll (advance d w2)) = elapsed_time w + d"
  proof
    assume lt: "elapsed_time w + d < duration w"
    have "currentTime (poll (advance d w2)) = elapsed_time (advance d w2)"
      using c2 pl lt el d2 d1
      by (intro poll_playing [THEN conjunct1]) (simp_all add: advance_fields)
    then show "currentTime (poll (advance d w2)) = elapsed_time w + d" using el by simp
  qed
  show ?thesis using t1 np p1 t2 pl off s2 el rep by (auto simp: advance_fields)
qed

text \<open>
  C3.  The accumulated offset does not survive a pause once the parent has rendered
  during playback.  The pause cancels only the frame whose handle is in
  \<open>animationFrameRef\<close>; the callback of the earlier render stays pending with its
  captured \<open>isPlaying = true\<close> and keeps adding the running clock to the offset that
  the pause has already advanced.  On the ten-second session: play, pause after 3
  seconds, a frame 4 seconds into the pause, play, and a frame 1.5 seconds later report
  4.5 from offset 3.  With one render of the parent before the pause, the frame during
  the pause finds 7 - 0 + 3 at the duration, ends the paused session and zeroes the
  offset, and the frame after the second play reports 1.5 from offset 0.
\<close>

theorem stale_callback_loses_pause_offset:
  "map_sum id observable
     (run [ClickToggle, ClockAdvance 3, ClickToggle, ClockAdvance 4, AnimationFrame,
           ClickToggle, ClockAdvance (3 / 2), AnimationFrame] demo_session) =
     Inr (True, 9 / 2, 45, 3, Some 3) \<and>
   map_sum id observable
     (run [ClickToggle, ParentRender 1, ClockAdvance 3, ClickToggle, ClockAdvance 4,
           AnimationFrame] demo_session) =
     Inr (False, 10, 100, 0, None) \<and>
   map_sum id observable
     (run [ClickToggle, ParentRender 1, ClockAdvance 3, ClickToggle, ClockAdvance 4,
           AnimationFrame, ClickToggle, ClockAdvance (3 / 2), AnimationFrame] demo_session) =
     Inr (True, 3 / 2, 15, 0, Some 0)"
  by (simp add: eval_defs observable_def)

section \<open>Replay after the natural end\<close>

text \<open>The statement for a session given by its parts.\<close>

lemma play_after_end_ready:
  assumes "audioContextRef w = Some ctx" "audioBufferRef w = Some buf" "gainNodeRef w = Some g"
      and "\<not> isPlaying w" "duration w \<le> currentTime w"
  shows "poll w = w \<and>
         (\<exists>w'. togglePlay w = Inr w' \<and> isPlaying w' \<and>
                pauseTimeRef w' = 0 \<and> currentTime w' = 0 \<and> progress w' = 0 \<and>
                map_option node_offset (sourceNodeRef w') = Some 0 \<and>
                startTimeRef w' = clock w \<and>
                endedCalls w' = endedCalls w \<and>
                (d < duration w \<longrightarrow>
                   currentTime (poll (advance d w')) = d \<and>
                   endedCalls (poll (advance d w')) = endedCalls w))"
proof -
  have noloop: "poll w = w" using assms(4) by (rule poll_not_playing)
  from togglePlay_replay [OF assms] obtain w' where
    t: "togglePlay w = Inr w'" and pl: "isPlaying w'" and
    off: "map_option node_offset (sourceNodeRef w') = Some 0" and
    s: "startTimeRef w' = clock w" and p: "pauseTimeRef w' = 0" and
    c: "currentTime w' = 0" and pr: "progress w' = 0" and
    du: "duration w' = duration w" and k: "clock w' = clock w" and
    cx: "audioContextRef w' \<noteq> None" and en: "endedCalls w' = endedCalls w"
    by blast
  have e0: "elapsed_time w' = 0" using s p k by (simp add: elapsed_time_def)
  have el: "elapsed_time (advance d w') = d" using cx e0 by (simp add: elapsed_time_advance)
  have nxt: "d < duration w \<longrightarrow>
               currentTime (poll (advance d w')) = d \<and>
               endedCalls (poll (advance d w')) = endedCalls w"
  proof
    assume "d < duration w"
    then have "currentTime (poll (advance d w')) = elapsed_time (advance d w') \<and>
         progress (poll (advance d w')) =
           elapsed_time (advance d w') / duration (advance d w') * 100 \<and>
         isPlaying (poll (advance d w')) \<and>
         endedCalls (poll (advance d w')) = endedCalls (advance d w')"
      using poll_playing [of "advance d w'"] cx pl el du by (simp add: advance_fields)
    then show "currentTime (poll (advance d w')) = d \<and>
               endedCalls (poll (advance d w')) = endedCalls w"
      using el en by (simp add: advance_fields)
  qed
  show ?thesis using noloop t pl p c pr off s en nxt by blast
qed

text \<open>
  C4.  In a ready session that has stopped with \<open>currentTime\<close> at or beyond the
  duration, nothing restarts playback by itself (a poll leaves the session as it is),
  and the next play resets \<open>pauseTimeRef\<close>, \<open>currentTime\<close> and \<open>progress\<close> to 0,
  starts a node at offset 0 and records the clock.  The play invokes no completion
  callback, and neither does a poll of the new run before its own end, which reports the
  time since the play.
\<close>

theorem play_after_end_rewinds:
  assumes "session_inv w" and "isReady w" and "\<not> isPlaying w" and "duration w \<le> currentTime w"
  shows "poll w = w \<and>
         (\<exists>w'. togglePlay w = Inr w' \<and> isPlaying w' \<and>
                pauseTimeRef w' = 0 \<and> currentTime w' = 0 \<and> progress w' = 0 \<and>
                map_option node_offset (sourceNodeRef w') = Some 0 \<and>
                startTimeRef w' = clock w \<and>
                endedCalls w' = endedCalls w \<and>
                (d < duration w \<longrightarrow>
                   currentTime (poll (advance d w')) = d \<and>
                   endedCalls (poll (advance d w')) = endedCalls w))"
proof -
  from session_inv_ready [OF assms(1,2)] obtain ctx buf g where
    "audioContextRef w = Some ctx" "audioBufferRef w = Some buf" "gainNodeRef w = Some g"
    by blast
  then show ?thesis using assms(3,4) by (rule play_after_end_ready)
qed

text \<open>
  The third end-to-end scenario: the ten-second session is played to its end, the poll
  at 10 seconds stops it with the callback invoked once; the next play starts from 0
  and the callback log is still the same after it.
\<close>

theorem play_after_end_rewinds_witness:
  "\<exists>w w'. run [ClickToggle, ClockAdvance 10, AnimationFrame] demo_session = Inr w \<and>
      session_inv w \<and> isReady w \<and> \<not> isPlaying w \<and> currentTime w = 10 \<and> duration w = 10 \<and> progress w = 100 \<and>
      endedCalls w = [0] \<and> poll w = w \<and>
      togglePlay w = Inr w' \<and> isPlaying w' \<and> currentTime w' = 0 \<and> progress w' = 0 \<and>
      pauseTimeRef w' = 0 \<and> endedCalls w' = [0] \<and>
      currentTime (poll (advance 4 w')) = 4 \<and> endedCalls (poll (advance 4 w')) = [0]"
proof -
  let ?w = "projr (run [ClickToggle, ClockAdvance 10, AnimationFrame] demo_session)"
  have r: "run [ClickToggle, ClockAdvance 10, AnimationFrame] demo_session = Inr ?w"
    by (simp add: eval_defs)
  have f: "session_inv ?w" "isReady ?w" "\<not> isPlaying ?w" "duration ?w \<le> currentTime ?w"
    by (simp_all add: eval_defs session_inv_def ui_progress_def closure_ok_def)
  have v: "currentTime ?w = 10" "duration ?w = 10" "progress ?w = 100" "endedCalls ?w = [0]"
    by (simp_all add: eval_defs)
  from play_after_end_rewinds [OF f, of 4] obtain w' where
    "poll ?w = ?w" "togglePlay ?w = Inr w'" "isPlaying w'" "pauseTimeRef w' = 0"
    "currentTime w' = 0" "progress w' = 0" "endedCalls w' = endedCalls ?w"
    "4 < duration ?w \<longrightarrow> currentTime (poll (advance 4 w')) = 4 \<and>
        endedCalls (poll (advance 4 w')) = endedCalls ?w"
    by blast
  then show ?thesis using r f v by (intro exI [of _ ?w] exI [of _ w']) simp
qed

section \<open>Restart and play against a fresh session\<close>

text \<open>
  Two sessions that agree on whether they play, on the duration and on the position, and
  on the elapsed time while they play, still agree after the clock of each has advanced
  by the same amount and each has been polled.
\<close>

lemma poll_advance_sync:
  assumes "isPlaying w = isPlaying v" "duration w = duration v" "currentTime w = currentTime v"
      and "isPlaying w \<longrightarrow>
             elapsed_time w = elapsed_time v \<and> audioContextRef w \<noteq> None \<and>
             audioContextRef v \<noteq> None"
  shows "isPlaying (poll (advance d w)) = isPlaying (poll (advance d v)) \<and>
         duration (poll (advance d w)) = duration (poll (advance d v)) \<and>
         currentTime (poll (advance d w)) = currentTime (poll (advance d v)) \<and>
         (isPlaying (poll (advance d w)) \<longrightarrow>
            elapsed_time (poll (advance d w)) = elapsed_time (poll (advance d v)) \<and>
            audioContextRef (poll (advance d w)) \<noteq> None \<and>
            audioContextRef (poll (advance d v)) \<noteq> None)"
proof (cases "isPlaying w")
  case False
  then have "poll (advance d w) = advance d w" "poll (advance d v) = advance d v"
    using assms(1) by (simp_all add: poll_not_playing advance_fields)
  then show ?thesis using False assms by (simp add: advance_fields)
next
  case True
  let ?w = "advance d w" and ?v = "advance d v"
  have pw: "isPlaying ?w" and pv: "isPlaying ?v" using True assms(1) by (simp_all add: advance_fields)
  have cw: "audioContextRef ?w \<noteq> None" and cv: "audioContextRef ?v \<noteq> None"
    using True assms(4) by (simp_all add: advance_fields)
  have e: "elapsed_time ?w = elapsed_time ?v"
    using True assms(4) by (simp add: elapsed_time_advance)
  have du: "duration ?w = duration ?v" using assms(2) by (simp add: advance_fields)
  show ?thesis
  proof (cases "elapsed_time ?w < duration ?w")
    case True
    then have "elapsed_time ?v < duration ?v" using e du by simp
    from poll_playing [OF cw pw True] poll_playing [OF cv pv this]
    show ?thesis using e du by simp
  next
    case False
    then have *: "duration ?w \<le> elapsed_time ?w" "duration ?v \<le> elapsed_time ?v"
      using e du by simp_all
    from poll_at_end [OF cw pw *(1)] poll_at_end [OF cv pv *(2)]
    show ?thesis using du by simp
  qed
qed

lemma poll_trajectory_sync:
  assumes "isPlaying w = isPlaying v" "duration w = duration v" "currentTime w = currentTime v"
      and "isPlaying w \<longrightarrow>
             elapsed_time w = elapsed_time v \<and> audioContextRef w \<noteq> None \<and>
             audioContextRef v \<noteq> None"
  shows "poll_trajectory ds w = poll_trajectory ds v"
  using assms
proof (induction ds arbitrary: w v)
  case Nil
  then show ?case by simp
next
  case (Cons d ds)
  note s = poll_advance_sync [OF Cons.prems, of d]
  have "poll_trajectory ds (poll (advance d w)) = poll_trajectory ds (poll (advance d v))"
    using s by (intro Cons.IH) simp_all
  then show ?case using s by (simp add: Let_def)
qed

lemma session_start_ready:
  assumes "newContext 24000 = Inr ctx" "dec p ctx = Inr b" "p \<noteq> []"
  shows "audioContextRef (session_start dec newContext (Some p) f) = Some ctx \<and>
         audioBufferRef (session_start dec newContext (Some p) f) = Some b \<and>
         gainNodeRef (session_start dec newContext (Some p) f) = Some GainNode \<and>
         \<not> isPlaying (session_start dec newContext (Some p) f) \<and>
         isReady (session_start dec newContext (Some p) f) \<and>
         duration (session_start dec newContext (Some p) f) = buffer_duration b \<and>
         currentTime (session_start dec newContext (Some p) f) = 0 \<and>
         pauseTimeRef (session_start dec newContext (Some p) f) = 0"
  using assms
  by (simp add: session_start_def initAudio_def mount_def render_def closure_of_def
      cancelAnimationFrame_def Let_def)

text \<open>
  C5.  Take a session in any state the invariant allows, ready on buffer \<open>b\<close>, and a
  fresh session whose decoder returned the same buffer.  Restart followed by play in the
  first and the first play of the second both succeed, and from then on the polls of
  the two sessions report the same sequence of \<open>currentTime\<close> values for the same
  advances of the audio clock.
\<close>

theorem restart_play_same_trajectory:
  assumes "session_inv w" and "audioBufferRef w = Some b"
      and "newContext 24000 = Inr ctx" and "dec p ctx = Inr b" and "p \<noteq> []"
  shows "\<exists>w1 v1. togglePlay (handleRestart w) = Inr w1 \<and>
           togglePlay (session_start dec newContext (Some p) f) = Inr v1 \<and>
           poll_trajectory ds w1 = poll_trajectory ds v1"
proof -
  let ?r = "handleRestart w" and ?v = "session_start dec newContext (Some p) f"
  have rdy: "isReady w" using assms(1,2) by (auto simp: session_inv_def)
  then have pos: "0 < duration w" and dur: "duration w = buffer_duration b"
    using assms(1,2) by (auto simp: session_inv_def)
  from rdy assms(1) obtain cx g where cx: "audioContextRef w = Some cx"
    and g: "gainNodeRef w = Some g"
    by (auto simp: session_inv_def)
  have rf: "audioContextRef ?r = Some cx" "audioBufferRef ?r = Some b" "gainNodeRef ?r = Some g"
    "\<not> isPlaying ?r" "currentTime ?r < duration ?r"
    using cx g assms(2) pos by (simp_all add: handleRestart_def stopAudio_eq)
  have rv: "pauseTimeRef ?r = 0" "currentTime ?r = 0" "duration ?r = duration w"
    by (simp_all add: handleRestart_def stopAudio_eq)
  from togglePlay_play [OF rf] obtain w1 where
    t1: "togglePlay ?r = Inr w1" and p1: "isPlaying w1" and
    s1: "startTimeRef w1 = clock ?r" "pauseTimeRef w1 = pauseTimeRef ?r"
        "currentTime w1 = currentTime ?r" "duration w1 = duration ?r" "clock w1 = clock ?r"
        "audioContextRef w1 \<noteq> None"
    by blast
  have sr: "audioContextRef ?v = Some ctx \<and> audioBufferRef ?v = Some b \<and>
         gainNodeRef ?v = Some GainNode \<and> \<not> isPlaying ?v \<and> isReady ?v \<and>
         duration ?v = buffer_duration b \<and> currentTime ?v = 0 \<and> pauseTimeRef ?v = 0"
    using assms(3,4,5) by (rule session_start_ready)
  have vf: "audioContextRef ?v = Some ctx" "audioBufferRef ?v = Some b"
    "gainNodeRef ?v = Some GainNode" "\<not> isPlaying ?v" "currentTime ?v < duration ?v"
    using sr pos dur by simp_all
  from togglePlay_play [OF vf] obtain v1 where
    t2: "togglePlay ?v = Inr v1" and p2: "isPlaying v1" and
    s2: "startTimeRef v1 = clock ?v" "pauseTimeRef v1 = pauseTimeRef ?v"
        "currentTime v1 = currentTime ?v" "duration v1 = duration ?v" "clock v1 = clock ?v"
        "audioContextRef v1 \<noteq> None"
    by blast
  have "poll_trajectory ds w1 = poll_trajectory ds v1"
  proof (rule poll_trajectory_sync)
    show "isPlaying w1 = isPlaying v1" using p1 p2 by simp
    show "duration w1 = duration v1" using s1 s2 rv sr dur by simp
    show "currentTime w1 = currentTime v1" using s1 s2 rv sr by simp
    show "isPlaying w1 \<longrightarrow>
            elapsed_time w1 = elapsed_time v1 \<and> audioContextRef w1 \<noteq> None \<and>
            audioContextRef v1 \<noteq> None"
      using s1 s2 rv sr by (simp add: elapsed_time_def)
  qed
  then show ?thesis using t1 t2 by blast
qed

text \<open>
  The ten-second session after play, 3 seconds, a poll, pause and 2 more seconds:
  restart and play give the trajectory 4, 8, 10 for the advances 4, 4, 4, as the first
  play of the fresh session does.
\<close>

theorem restart_play_same_trajectory_witness:
  "\<exists>w w1 v1.
      run [ClickToggle, ClockAdvance 3, AnimationFrame, ClickToggle, ClockAdvance 2]
        demo_session = Inr w \<and>
      session_inv w \<and> audioBufferRef w = Some demo_buffer \<and> currentTime w = 3 \<and>
      togglePlay (handleRestart w) = Inr w1 \<and> togglePlay demo_session = Inr v1 \<and>
      poll_trajectory [4, 4, 4] w1 = poll_trajectory [4, 4, 4] v1 \<and>
      poll_trajectory [4, 4, 4] v1 = [4, 8, 10]"
proof -
  let ?es = "[ClickToggle, ClockAdvance 3, AnimationFrame, ClickToggle, ClockAdvance 2]"
  let ?w = "projr (run ?es demo_session)"
  have r: "run ?es demo_session = Inr ?w" by (simp add: eval_defs)
  have i: "session_inv ?w"
    by (simp add: eval_defs session_inv_def ui_progress_def closure_ok_def)
  have b: "audioBufferRef ?w = Some demo_buffer" and c: "currentTime ?w = 3"
    by (simp_all add: eval_defs)
  have n: "demo_context 24000 =
             Inr \<lparr>ctx_currentTime = 0, ctx_state = Suspended, ctx_sampleRate = 24000\<rparr>"
    by (simp add: demo_context_def)
  have "\<exists>w1 v1. togglePlay (handleRestart ?w) = Inr w1 \<and>
           togglePlay (session_start (\<lambda>p ctx. Inr demo_buffer) demo_context (Some ''AAAA'') 0) =
             Inr v1 \<and>
           poll_trajectory [4, 4, 4] w1 = poll_trajectory [4, 4, 4] v1"
    using i b n by (rule restart_play_same_trajectory) simp_all
  then obtain w1 v1 where t: "togglePlay (handleRestart ?w) = Inr w1"
    "togglePlay demo_session = Inr v1"
    "poll_trajectory [4, 4, 4] w1 = poll_trajectory [4, 4, 4] v1"
    by (auto simp: demo_session_def)
  have "poll_trajectory [4, 4, 4] v1 = [4, 8, 10]"
    using t(2) by (auto simp: eval_defs)
  then show ?thesis using r i b c t by (intro exI [of _ ?w] exI [of _ w1] exI [of _ v1]) simp
qed

section \<open>Monotone progress\<close>

text \<open>
  Polls by the callback of the current state never report a smaller \<open>currentTime\<close>
  when the audio clock does not run backwards.
\<close>

lemma poll_twice_mono:
  assumes "0 \<le> d"
  shows "currentTime (poll w) \<le> currentTime (poll (advance d (poll w)))"
proof (cases "isPlaying w \<and> audioContextRef w \<noteq> None")
  case False
  then have "poll w = w"
    by (cases "audioContextRef w") (auto simp: poll_def updateProgress_def closure_of_def)
  moreover have "poll (advance d w) = advance d w"
    using False
    by (cases "audioContextRef w")
       (auto simp: poll_def updateProgress_def closure_of_def advance_def)
  ultimately show ?thesis by (simp add: advance_fields)
next
  case True
  then have cx: "audioContextRef w \<noteq> None" and pl: "isPlaying w" by simp_all
  show ?thesis
  proof (cases "elapsed_time w < duration w")
    case False
    then have "\<not> isPlaying (poll w)" using poll_at_end [OF cx pl] by simp
    then have "poll (advance d (poll w)) = advance d (poll w)"
      by (intro poll_not_playing) (simp add: advance_fields)
    then show ?thesis by (simp add: advance_fields)
  next
    case lt: True
    note p = poll_playing [OF cx pl lt]
    let ?v = "advance d (poll w)"
    have cv: "audioContextRef ?v \<noteq> None" using p by (simp add: advance_fields)
    have pv: "isPlaying ?v" using p by (simp add: advance_fields)
    have ev: "elapsed_time ?v = elapsed_time w + d" using p by (simp add: elapsed_time_advance)
    have dv: "duration ?v = duration w" using p by (simp add: advance_fields)
    show ?thesis
    proof (cases "elapsed_time ?v < duration ?v")
      case True
      then have "currentTime (poll ?v) = elapsed_time ?v" using poll_playing [OF cv pv] by simp
      then show ?thesis using p ev assms by simp
    next
      case False
      then have "currentTime (poll ?v) = duration ?v" using poll_at_end [OF cv pv] by simp
      then show ?thesis using p dv lt by simp
    qed
  qed
qed

lemma poll_trajectory_sorted_from:
  "list_all (\<lambda>d. 0 \<le> d) ds \<Longrightarrow> sorted (currentTime (poll w) # poll_trajectory ds (poll w))"
proof (induction ds arbitrary: w)
  case Nil
  then show ?case by simp
next
  case (Cons d ds)
  then have d0: "0 \<le> d" and rest: "list_all (\<lambda>d. 0 \<le> d) ds" by simp_all
  let ?v = "advance d (poll w)"
  have "sorted (currentTime (poll ?v) # poll_trajectory ds (poll ?v))"
    using rest by (rule Cons.IH)
  moreover have "currentTime (poll w) \<le> currentTime (poll ?v)"
    using d0 by (rule poll_twice_mono)
  ultimately show ?case by (simp add: Let_def) (use order_trans in blast)
qed

text \<open>
  C6.  The polls that the component runs are the pending callbacks, and with two of them
  pending the reported time can fall.  On the ten-second session: play, a frame at 3
  seconds, pause and play again at once (offset 3, segment start 3), one render of the
  parent, and the frame at 9 seconds reports 9 while the session plays with two callbacks
  pending.  In the frame at 10 seconds the first callback finds 10 - 3 + 3 at the
  duration, reports 10 and zeroes the offset; the second, which captured
  \<open>isPlaying = true\<close>, then computes 10 - 3 + 0 and reports 7, the value the frame
  leaves on display.
\<close>

theorem stale_callback_reports_earlier_time:
  "map_sum id observable
     (run [ClickToggle, ClockAdvance 3, AnimationFrame, ClickToggle, ClickToggle,
           ParentRender 1, ClockAdvance 6, AnimationFrame] demo_session) =
     Inr (True, 9, 90, 3, Some 3) \<and>
   map_sum id
     (\<lambda>w. (isPlaying w, map snd (frameCallbacks w),
           currentTime
             (updateProgress \<lparr>cap_duration = 10, cap_isPlaying = True, cap_onEnded = 0\<rparr> w),
           currentTime
             (updateProgress \<lparr>cap_duration = 10, cap_isPlaying = True, cap_onEnded = 1\<rparr>
                (updateProgress \<lparr>cap_duration = 10, cap_isPlaying = True, cap_onEnded = 0\<rparr>
                   w))))
     (run [ClickToggle, ClockAdvance 3, AnimationFrame, ClickToggle, ClickToggle,
           ParentRender 1, ClockAdvance 6, AnimationFrame, ClockAdvance 1] demo_session) =
     Inr (True,
          [\<lparr>cap_duration = 10, cap_isPlaying = True, cap_onEnded = 0\<rparr>,
           \<lparr>cap_duration = 10, cap_isPlaying = True, cap_onEnded = 1\<rparr>],
          10, 7) \<and>
   map_sum id observable
     (run [ClickToggle, ClockAdvance 3, AnimationFrame, ClickToggle, ClickToggle,
           ParentRender 1, ClockAdvance 6, AnimationFrame, ClockAdvance 1, AnimationFrame]
        demo_session) =
     Inr (False, 7, 70, 0, None)"
  by (simp add: eval_defs observable_def)

section \<open>Pausing twice\<close>

text \<open>
  C7, as the specification states it, does not hold: the component has one control,
  \<open>togglePlay\<close>, and no pause of its own.  On the ten-second session, playing for 3
  seconds, one call pauses (not playing, no node, offset 3); a second call in a row
  plays again from offset 3.
\<close>

theorem second_toggle_resumes_counterexample:
  "map_sum id observable (run [ClickToggle, ClockAdvance 3, ClickToggle] demo_session) =
     Inr (False, 0, 0, 3, None) \<and>
   map_sum id observable
     (run [ClickToggle, ClockAdvance 3, ClickToggle, ClickToggle] demo_session) =
     Inr (True, 0, 0, 3, Some 3)"
  by (simp add: eval_defs observable_def)

text \<open>The amended statement for a session given by its parts.\<close>

lemma pause_then_toggle_ready:
  assumes "audioContextRef w = Some ctx" "audioBufferRef w = Some buf" "gainNodeRef w = Some g"
      and "isPlaying w" "currentTime w < duration w"
  shows "stopAudio (stopAudio w) = stopAudio w \<and>
         (\<exists>w1 w2. togglePlay w = Inr w1 \<and> \<not> isPlaying w1 \<and> sourceNodeRef w1 = None \<and>
            stopAudio w1 = w1 \<and>
            currentTime w1 = currentTime w \<and> progress w1 = progress w \<and>
            pauseTimeRef w1 = pauseTimeRef w + (clock w - startTimeRef w) \<and>
            togglePlay w1 = Inr w2 \<and> isPlaying w2 \<and>
            map_option node_offset (sourceNodeRef w2) = Some (pauseTimeRef w1) \<and>
            currentTime w2 = currentTime w1 \<and> progress w2 = progress w1 \<and>
            pauseTimeRef w2 = pauseTimeRef w1)"
proof -
  have idem: "stopAudio (stopAudio w) = stopAudio w" by (simp add: stopAudio_eq)
  from togglePlay_pause [OF assms(1,2,4)] obtain w1 where
    t1: "togglePlay w = Inr w1" and np: "\<not> isPlaying w1" and
    n1: "sourceNodeRef w1 = None" and
    p1: "pauseTimeRef w1 = pauseTimeRef w + (clock w - startTimeRef w)" and
    ct1: "currentTime w1 = currentTime w" and pr1: "progress w1 = progress w" and
    d1: "duration w1 = duration w" and
    c1: "audioContextRef w1 \<noteq> None" and b1: "audioBufferRef w1 = audioBufferRef w" and
    g1: "gainNodeRef w1 = gainNodeRef w"
    by blast
  have st: "stopAudio w1 = w1" using n1 by (simp add: stopAudio_def)
  from c1 obtain ctx' where c1': "audioContextRef w1 = Some ctx'" by auto
  have "\<exists>w2. togglePlay w1 = Inr w2 \<and> isPlaying w2 \<and>
           map_option node_offset (sourceNodeRef w2) = Some (pauseTimeRef w1) \<and>
           map_option node_buffer (sourceNodeRef w2) = Some buf \<and>
           startTimeRef w2 = clock w1 \<and> pauseTimeRef w2 = pauseTimeRef w1 \<and>
           currentTime w2 = currentTime w1 \<and> progress w2 = progress w1 \<and>
           duration w2 = duration w1 \<and> clock w2 = clock w1 \<and>
           audioContextRef w2 \<noteq> None \<and> endedCalls w2 = endedCalls w1 \<and>
           onEnded w2 = onEnded w1"
    using c1' b1 g1 assms np ct1 d1 by (intro togglePlay_play) simp_all
  then obtain w2 where
    "togglePlay w1 = Inr w2" "isPlaying w2"
    "map_option node_offset (sourceNodeRef w2) = Some (pauseTimeRef w1)"
    "currentTime w2 = currentTime w1" "progress w2 = progress w1"
    "pauseTimeRef w2 = pauseTimeRef w1"
    by blast
  then show ?thesis using idem t1 np n1 st ct1 pr1 p1 by blast
qed

text \<open>
  C7 amended.  \<open>stopAudio\<close> is idempotent and total: stopping when no node is active
  changes nothing.  In a ready session that is playing, \<open>togglePlay\<close> pauses: the
  session no longer plays, has no active node, and keeps its position and progress.
  Called again at once, \<open>togglePlay\<close> is a play: it sets \<open>isPlaying\<close> and starts a
  new node at the accumulated offset, and it leaves the position, the progress and the
  accumulated offset as the pause left them.
\<close>

theorem pause_then_toggle_resumes:
  assumes "session_inv w" and "isPlaying w"
  shows "stopAudio (stopAudio w) = stopAudio w \<and>
         (\<exists>w1 w2. togglePlay w = Inr w1 \<and> \<not> isPlaying w1 \<and> sourceNodeRef w1 = None \<and>
            stopAudio w1 = w1 \<and>
            currentTime w1 = currentTime w \<and> progress w1 = progress w \<and>
            pauseTimeRef w1 = pauseTimeRef w + (clock w - startTimeRef w) \<and>
            togglePlay w1 = Inr w2 \<and> isPlaying w2 \<and>
            map_option node_offset (sourceNodeRef w2) = Some (pauseTimeRef w1) \<and>
            currentTime w2 = currentTime w1 \<and> progress w2 = progress w1 \<and>
            pauseTimeRef w2 = pauseTimeRef w1)"
proof -
  from session_inv_playing [OF assms] have r: "isReady w" and c: "currentTime w < duration w"
    by simp_all
  from session_inv_ready [OF assms(1) r] obtain ctx buf g where
    "audioContextRef w = Some ctx" "audioBufferRef w = Some buf" "gainNodeRef w = Some g"
    by blast
  then show ?thesis using assms(2) c by (rule pause_then_toggle_ready)
qed

theorem pause_then_toggle_resumes_witness:
  "\<exists>w w1 w2. run [ClickToggle, ClockAdvance 3, AnimationFrame] demo_session = Inr w \<and>
      session_inv w \<and> isPlaying w \<and> currentTime w = 3 \<and> duration w = 10 \<and>
      stopAudio (stopAudio w) = stopAudio w \<and>
      togglePlay w = Inr w1 \<and> observable w1 = (False, 3, 30, 3, None) \<and>
      stopAudio w1 = w1 \<and>
      togglePlay w1 = Inr w2 \<and> observable w2 = (True, 3, 30, 3, Some 3)"
proof -
  let ?w = "projr (run [ClickToggle, ClockAdvance 3, AnimationFrame] demo_session)"
  have r: "run [ClickToggle, ClockAdvance 3, AnimationFrame] demo_session = Inr ?w"
    by (simp add: eval_defs)
  have f: "session_inv ?w" "isPlaying ?w"
    by (simp_all add: eval_defs session_inv_def ui_progress_def closure_ok_def)
  have v: "currentTime ?w = 3" "duration ?w = 10" "progress ?w = 30" "pauseTimeRef ?w = 0"
    "clock ?w = 3" "startTimeRef ?w = 0"
    by (simp_all add: eval_defs)
  from pause_then_toggle_resumes [OF f] obtain w1 w2 where
    "stopAudio (stopAudio ?w) = stopAudio ?w"
    "togglePlay ?w = Inr w1" "\<not> isPlaying w1" "sourceNodeRef w1 = None" "stopAudio w1 = w1"
    "currentTime w1 = currentTime ?w" "progress w1 = progress ?w"
    "pauseTimeRef w1 = pauseTimeRef ?w + (clock ?w - startTimeRef ?w)"
    "togglePlay w1 = Inr w2" "isPlaying w2"
    "map_option node_offset (sourceNodeRef w2) = Some (pauseTimeRef w1)"
    "currentTime w2 = currentTime w1" "progress w2 = progress w1"
    "pauseTimeRef w2 = pauseTimeRef w1"
    by blast
  then show ?thesis
    using r f v by (intro exI [of _ ?w] exI [of _ w1] exI [of _ w2]) (simp add: observable_def)
qed

section \<open>Premature interaction\<close>

text \<open>
  C8.  While no decoded buffer exists, \<open>togglePlay\<close> returns at its guard: it raises
  nothing and leaves the whole session as it was.
\<close>

theorem togglePlay_not_ready_noop:
  "audioBufferRef w = None \<Longrightarrow> togglePlay w = Inr w"
  by (simp add: togglePlay_def split: option.splits)

theorem togglePlay_not_ready_noop_witness:
  "audioBufferRef (mount 0) = None \<and> togglePlay (mount 0) = Inr (mount 0)"
  using togglePlay_not_ready_noop [of "mount 0"] by (simp add: mount_def)

section \<open>The decode pipeline\<close>

lemma length_pcm16_frames: "length (pcm16_frames bs) = length bs div 2"
  by (induction bs rule: pcm16_frames.induct) simp_all

lemma nth_pcm16_frames:
  "i < length bs div 2 \<Longrightarrow> pcm16_frames bs ! i = pcm16_sample (bs ! (2 * i)) (bs ! (2 * i + 1))"
proof (induction bs arbitrary: i rule: pcm16_frames.induct)
  case (1 lo hi rest)
  then show ?case by (cases i) simp_all
qed simp_all

lemma pcm16_sample_range: "- 1 \<le> pcm16_sample lo hi \<and> pcm16_sample lo hi \<le> 1"
proof -
  let ?v = "sint (word_cat hi lo :: 16 word)"
  have "- (2 ^ 15) \<le> ?v" using sint_ge [of "word_cat hi lo :: 16 word"] by simp
  moreover have "?v < 2 ^ 15" using sint_lt [of "word_cat hi lo :: 16 word"] by simp
  ultimately have "- 32768 \<le> ?v" "?v \<le> 32768" by simp_all
  then have "real_of_int (- 32768) \<le> real_of_int ?v" "real_of_int ?v \<le> real_of_int 32768"
    by (simp_all only: of_int_le_iff)
  then show ?thesis by (simp add: pcm16_sample_def)
qed

text \<open>
  C9.  When the payload decodes to \<open>2 * n\<close> bytes, \<open>n\<close> positive, and the context
  runs at 24000 Hz, decoding succeeds with a buffer of exactly \<open>n\<close> frames; frame
  \<open>i\<close> is the signed 16-bit value of bytes \<open>2 * i\<close> (low) and \<open>2 * i + 1\<close> (high)
  divided by 32768, which lies in [-1, 1]; and the duration of the buffer is
  \<open>n / 24000\<close> seconds.
\<close>

theorem decode_frames_and_duration:
  assumes "atob payload = Some bytes" and "length bytes = 2 * n" and "0 < n"
      and "ctx_sampleRate ctx = 24000"
  shows "\<exists>b. decodeAudioData payload ctx = Inr b \<and>
             length (buf_samples b) = n \<and>
             (\<forall>i<n. buf_samples b ! i =
                       real_of_int
                         (sint (word_cat (bytes ! (2 * i + 1)) (bytes ! (2 * i)) :: 16 word)) /
                       32768 \<and>
                     - 1 \<le> buf_samples b ! i \<and> buf_samples b ! i \<le> 1) \<and>
             buffer_duration b = real n / 24000"
proof -
  let ?b = "\<lparr>buf_samples = pcm16_frames bytes, buf_sampleRate = ctx_sampleRate ctx\<rparr>"
  have ne: "bytes \<noteq> []" using assms(2,3) by auto
  have ev: "\<not> odd (length bytes)" using assms(2) by simp
  have d: "decodeAudioData payload ctx = Inr ?b"
    using assms(1) ne ev by (simp add: decodeAudioData_def)
  have len: "length (buf_samples ?b) = n" using assms(2) by (simp add: length_pcm16_frames)
  have smp: "\<forall>i<n. buf_samples ?b ! i =
                       real_of_int
                         (sint (word_cat (bytes ! (2 * i + 1)) (bytes ! (2 * i)) :: 16 word)) /
                       32768 \<and>
                     - 1 \<le> buf_samples ?b ! i \<and> buf_samples ?b ! i \<le> 1"
  proof (intro allI impI)
    fix i assume "i < n"
    then have "i < length bytes div 2" using assms(2) by simp
    then have "pcm16_frames bytes ! i = pcm16_sample (bytes ! (2 * i)) (bytes ! (2 * i + 1))"
      by (rule nth_pcm16_frames)
    then show "buf_samples ?b ! i =
                       real_of_int
                         (sint (word_cat (bytes ! (2 * i + 1)) (bytes ! (2 * i)) :: 16 word)) /
                       32768 \<and>
                     - 1 \<le> buf_samples ?b ! i \<and> buf_samples ?b ! i \<le> 1"
      using pcm16_sample_range [of "bytes ! (2 * i)" "bytes ! (2 * i + 1)"]
      by (simp add: pcm16_sample_def)
  qed
  have dur: "buffer_duration ?b = real n / 24000"
    using assms(2,4) by (simp add: buffer_duration_def length_pcm16_frames)
  show ?thesis using d len smp dur by (intro exI [of _ ?b]) simp
qed

text \<open>
  The payload \<open>AID/fw==\<close> holds the four bytes 00 80 FF 7F: the samples -32768 and
  32767, that is -1 and 32767/32768, two frames lasting 2/24000 seconds.
\<close>

theorem decode_frames_and_duration_witness:
  "atob ''AID/fw=='' = Some [0, 0x80, 0xFF, 0x7F] \<and>
   length [0, 0x80, 0xFF, 0x7F :: 8 word] = 2 * 2 \<and> (0::nat) < 2 \<and>
   decodeAudioData ''AID/fw==''
      \<lparr>ctx_currentTime = 0, ctx_state = Suspended, ctx_sampleRate = 24000\<rparr> =
     Inr \<lparr>buf_samples = [- 1, 32767 / 32768], buf_sampleRate = 24000\<rparr> \<and>
   buffer_duration \<lparr>buf_samples = [- 1, 32767 / 32768], buf_sampleRate = 24000\<rparr> = 2 / 24000"
proof -
  let ?ctx = "\<lparr>ctx_currentTime = 0, ctx_state = Suspended, ctx_sampleRate = 24000\<rparr>"
  have a: "atob ''AID/fw=='' = Some [0, 0x80, 0xFF, 0x7F]" by code_simp
  have f: "pcm16_frames [0, 0x80, 0xFF, 0x7F] = [- 1, 32767 / 32768]" by code_simp
  have d: "decodeAudioData ''AID/fw=='' ?ctx =
     Inr \<lparr>buf_samples = [- 1, 32767 / 32768], buf_sampleRate = 24000\<rparr>"
    using a f by (simp add: decodeAudioData_def)
  from decode_frames_and_duration [OF a, of 2 ?ctx]
  obtain b where "decodeAudioData ''AID/fw=='' ?ctx = Inr b"
    and "buffer_duration b = real 2 / 24000" by auto
  then show ?thesis using a d by simp
qed

section \<open>A payload that fails to decode\<close>

lemma dormant_view: "dormant w \<Longrightarrow> AudioPlayer_view w = LoadingIndicator"
  by (simp add: dormant_def AudioPlayer_view_def)

lemma dormant_togglePlay: "dormant w \<Longrightarrow> togglePlay w = Inr w"
  by (simp add: dormant_def togglePlay_def split: option.splits)

lemma dormant_handleRestart: "dormant w \<Longrightarrow> handleRestart w = w"
  by (simp add: dormant_def handleRestart_def stopAudio_def)

lemma dormant_poll: "dormant w \<Longrightarrow> poll w = w"
  by (simp add: dormant_def poll_not_playing)

lemma dormant_render: "dormant w \<Longrightarrow> dormant (render w) \<and> console (render w) = console w"
  by (simp add: dormant_def render_def closure_of_def cancelAnimationFrame_def Let_def)

lemma dormant_step:
  assumes "dormant w"
  shows "\<exists>w'. step e w = Inr w' \<and> dormant w' \<and> console w' = console w"
proof (cases e)
  case ClickToggle
  then show ?thesis using assms by (simp add: dormant_togglePlay dormant_render)
next
  case ClickRestart
  then show ?thesis using assms by (simp add: dormant_handleRestart dormant_render)
next
  case AnimationFrame
  have e: "frameCallbacks w = []" using assms by (simp add: dormant_def)
  have "dormant (w\<lparr>frameCallbacks := []\<rparr>)" using assms by (simp add: dormant_def)
  then have "dormant (render (w\<lparr>frameCallbacks := []\<rparr>)) \<and>
             console (render (w\<lparr>frameCallbacks := []\<rparr>)) = console (w\<lparr>frameCallbacks := []\<rparr>)"
    by (rule dormant_render)
  then show ?thesis using AnimationFrame e by (simp add: animation_frame_def)
next
  case (ClockAdvance d)
  then show ?thesis using assms by (simp add: dormant_def advance_def)
next
  case (ParentRender f)
  have "dormant (w\<lparr>onEnded := f\<rparr>)" using assms by (simp add: dormant_def)
  then show ?thesis using ParentRender by (simp add: dormant_render)
qed

lemma dormant_run:
  "dormant w \<Longrightarrow> \<exists>w'. run es w = Inr w' \<and> dormant w' \<and> console w' = console w"
proof (induction es arbitrary: w)
  case Nil
  then show ?case by simp
next
  case (Cons e es)
  from dormant_step [OF Cons.prems, of e] obtain w1 where
    s: "step e w = Inr w1" and d: "dormant w1" and c: "console w1 = console w"
    by blast
  from Cons.IH [OF d] obtain w' where "run es w1 = Inr w'" "dormant w'" "console w' = console w1"
    by blast
  then show ?case using s c by simp
qed

text \<open>
  C10.  When the decoder throws on the payload, the error ends on the console and
  nowhere else, and the session that starts is not ready.  Whatever events follow
  (clicks, animation frames, clock advances, renders of the parent), every one is
  accepted, the session stays not ready with the loading indicator as its view, nothing
  plays, no completion callback is invoked, and \<open>togglePlay\<close>, \<open>handleRestart\<close> and
  the poll leave the state they are called in untouched.
\<close>

theorem decode_failure_stays_loading:
  assumes "newContext 24000 = Inr ctx" and "dec p ctx = Inl err" and "p \<noteq> []"
  shows "console (session_start dec newContext (Some p) f) = [err] \<and>
         (\<exists>w. run es (session_start dec newContext (Some p) f) = Inr w \<and>
              \<not> isReady w \<and> AudioPlayer_view w = LoadingIndicator \<and>
              \<not> isPlaying w \<and> sourceNodeRef w = None \<and> endedCalls w = [] \<and>
              console w = [err] \<and>
              togglePlay w = Inr w \<and> handleRestart w = w \<and> poll w = w)"
proof -
  let ?s = "session_start dec newContext (Some p) f"
  have c: "console ?s = [err]" and d: "dormant ?s"
    using assms
    by (simp_all add: session_start_def initAudio_def mount_def render_def closure_of_def
        dormant_def)
  from dormant_run [OF d, of es] obtain w where
    r: "run es ?s = Inr w" and dw: "dormant w" and cw: "console w = console ?s"
    by blast
  have "\<not> isReady w" "\<not> isPlaying w" "sourceNodeRef w = None" "endedCalls w = []"
    using dw by (simp_all add: dormant_def)
  then show ?thesis
    using c r cw dw dormant_view dormant_togglePlay dormant_handleRestart dormant_poll
    by auto
qed

theorem decode_failure_stays_loading_witness:
  "\<exists>w. run [ClickToggle, ClockAdvance 5, AnimationFrame, ClickRestart, ParentRender 1,
             ClickToggle, AnimationFrame]
          (session_start (\<lambda>p ctx. Inl DecodeError) demo_context (Some ''!!!!'') 0) = Inr w \<and>
        \<not> isReady w \<and> AudioPlayer_view w = LoadingIndicator \<and> \<not> isPlaying w \<and>
        endedCalls w = [] \<and> console w = [DecodeError] \<and>
        togglePlay w = Inr w \<and> handleRestart w = w \<and> poll w = w"
proof -
  have n: "demo_context 24000 =
             Inr \<lparr>ctx_currentTime = 0, ctx_state = Suspended, ctx_sampleRate = 24000\<rparr>"
    by (simp add: demo_context_def)
  have d: "(\<lambda>p ctx. Inl DecodeError :: js_error + audio_buffer) ''!!!!''
             \<lparr>ctx_currentTime = 0, ctx_state = Suspended, ctx_sampleRate = 24000\<rparr> =
           Inl DecodeError"
    by simp
  have "console (session_start (\<lambda>p ctx. Inl DecodeError) demo_context (Some ''!!!!'') 0) =
          [DecodeError] \<and>
        (\<exists>w. run [ClickToggle, ClockAdvance 5, AnimationFrame, ClickRestart, ParentRender 1,
                  ClickToggle, AnimationFrame]
               (session_start (\<lambda>p ctx. Inl DecodeError) demo_context (Some ''!!!!'') 0) = Inr w \<and>
              \<not> isReady w \<and> AudioPlayer_view w = LoadingIndicator \<and>
              \<not> isPlaying w \<and> sourceNodeRef w = None \<and> endedCalls w = [] \<and>
              console w = [DecodeError] \<and>
              togglePlay w = Inr w \<and> handleRestart w = w \<and> poll w = w)"
    using n d by (rule decode_failure_stays_loading) simp
  then show ?thesis by blast
qed

end
